theory Spec2Isabelle
  imports Main "HOL-Library.Sublist"
begin

section \<open>The runtime type checker \<open>typecheck\<close> of \<open>type_checker.py\<close>\<close>

text \<open>
  The decorator \<open>typecheck(func)\<close> reads the annotations and the signature of a Python
  function, rewrites its \<open>__doc__\<close>, and returns the closure \<open>check_type\<close>, which checks the
  keyword arguments, then the positional arguments, against the annotations and then calls
  the function. The embedding follows the source line by line; what the source takes from
  the interpreter (the text \<open>str\<close> gives for a class, \<open>isinstance(x, type)\<close>, the order of
  \<open>__annotations__\<close>) is modelled as CPython does it. Line 45 admits every version from 3.7
  on; where the versions differ, in what \<open>typing.Any\<close> is, the model takes the version as
  an argument.
\<close>

subsection \<open>Classes, values and annotations\<close>

text \<open>
  A class object: the name \<open>str\<close> shows between the quotes of \<open><class '...'>\<close> and its
  direct base classes. Two class objects are the same object when they are equal here.
\<close>

datatype pyclass = PyClass (cname: string) (bases: "pyclass list")

fun issubclass :: "pyclass \<Rightarrow> pyclass \<Rightarrow> bool" where
  "issubclass (PyClass n bs) d = (PyClass n bs = d \<or> list_ex (\<lambda>b. issubclass b d) bs)"

definition object_class :: pyclass where
  "object_class = PyClass ''object'' []"

definition int_class :: pyclass where
  "int_class = PyClass ''int'' [object_class]"

definition bool_class :: pyclass where
  "bool_class = PyClass ''bool'' [int_class]"

definition str_class :: pyclass where
  "str_class = PyClass ''str'' [object_class]"

definition NoneType :: pyclass where
  "NoneType = PyClass ''NoneType'' [object_class]"

text \<open>The class \<open>typing.Any\<close> of CPython 3.11 and later.\<close>

definition any_class :: pyclass where
  "any_class = PyClass ''typing.Any'' [object_class]"

text \<open>Argument values; \<open>type_of\<close> is Python's \<open>type(value)\<close>.\<close>

datatype pyval = IntV int | BoolV bool | StrV string | NoneV | ObjV pyclass nat

fun type_of :: "pyval \<Rightarrow> pyclass" where
  "type_of (IntV _) = int_class"
| "type_of (BoolV _) = bool_class"
| "type_of (StrV _) = str_class"
| "type_of NoneV = NoneType"
| "type_of (ObjV c _) = c"

text \<open>
  What an entry of \<open>__annotations__\<close> can hold: a class object, a special form of the
  module \<open>typing\<close> (an instance of \<open>typing._SpecialForm\<close>, given by its name), a string, or
  a union \<open>A | B\<close>. Only a class object is an instance of \<open>type\<close>.
\<close>

datatype annotation =
    TypeObj pyclass
  | SpecialForm string
  | StrAnn string
  | UnionAnn "pyclass list"

fun isinstance_type :: "annotation \<Rightarrow> bool" where
  "isinstance_type (TypeObj _) = True"
| "isinstance_type (SpecialForm _) = False"
| "isinstance_type (StrAnn _) = False"
| "isinstance_type (UnionAnn _) = False"

text \<open>
  Line 45: the module raises when it is imported under a version before 3.7. A version
  3.\<open>minor\<close> is given by \<open>minor\<close>.
\<close>

definition version_supported :: "nat \<Rightarrow> bool" where
  "version_supported minor = (\<not> minor < 7)"

text \<open>
  What the name \<open>typing.Any\<close> is bound to: the special form \<open>Any\<close> up to CPython 3.10, the
  class \<open>typing.Any\<close> from CPython 3.11 on. The docstring of \<open>typecheck\<close> (lines 57 and 58)
  tells to write \<open>typing.Any\<close> where no check is wanted.
\<close>

definition typing_Any :: "nat \<Rightarrow> annotation" where
  "typing_Any minor = (if minor < 11 then SpecialForm ''Any'' else TypeObj any_class)"

subsection \<open>Text\<close>

definition squote :: string where
  "squote = [CHR 0x27]"

definition endl :: string where
  "endl = [CHR 0x0A]"

definition tab :: string where
  "tab = ''    ''"

fun join :: "string \<Rightarrow> string list \<Rightarrow> string" where
  "join sep [] = []"
| "join sep [x] = x"
| "join sep (x # y # ys) = x @ sep @ join sep (y # ys)"

text \<open>\<open>s.strip(chars)\<close>: drops from both ends every character that occurs in \<open>chars\<close>.\<close>

definition strip :: "string \<Rightarrow> string \<Rightarrow> string" where
  "strip chars s =
     rev (dropWhile (\<lambda>c. c \<in> set chars) (rev (dropWhile (\<lambda>c. c \<in> set chars) s)))"

definition digit_char :: "nat \<Rightarrow> char" where
  "digit_char n = ''0123456789'' ! n"

fun str_nat :: "nat \<Rightarrow> string" where
  "str_nat n = (if n < 10 then [digit_char n] else str_nat (n div 10) @ [digit_char (n mod 10)])"

text \<open>
  \<open>str\<close> of a class is \<open><class 'name'>\<close>; the metaclass of \<open>typing.Any\<close> prints that class
  as \<open>typing.Any\<close>.
\<close>

definition str_class_obj :: "pyclass \<Rightarrow> string" where
  "str_class_obj c =
     (if c = any_class then ''typing.Any'' else ''<class '' @ squote @ cname c @ squote @ ''>'')"

fun str_annotation :: "annotation \<Rightarrow> string" where
  "str_annotation (TypeObj c) = str_class_obj c"
| "str_annotation (SpecialForm n) = ''typing.'' @ n"
| "str_annotation (StrAnn s) = s"
| "str_annotation (UnionAnn cs) = join '' | '' (map cname cs)"

text \<open>Lines 72 to 75: \<open>get_clear_type_name\<close>, three calls of \<open>strip\<close>.\<close>

definition get_clear_type_name :: "string \<Rightarrow> string" where
  "get_clear_type_name raw_type_name =
     strip (squote @ ''>'') (strip squote (strip ''<class '' raw_type_name))"

subsection \<open>Functions and their signatures\<close>

datatype kind =
    POSITIONAL_ONLY
  | POSITIONAL_OR_KEYWORD
  | VAR_POSITIONAL
  | KEYWORD_ONLY
  | VAR_KEYWORD

fun str_kind :: "kind \<Rightarrow> string" where
  "str_kind POSITIONAL_ONLY = ''POSITIONAL_ONLY''"
| "str_kind POSITIONAL_OR_KEYWORD = ''POSITIONAL_OR_KEYWORD''"
| "str_kind VAR_POSITIONAL = ''VAR_POSITIONAL''"
| "str_kind KEYWORD_ONLY = ''KEYWORD_ONLY''"
| "str_kind VAR_KEYWORD = ''VAR_KEYWORD''"

text \<open>
  An \<open>inspect.Parameter\<close>. The source reads its default only through \<open>str\<close>, so the
  default is kept as that text; \<open>None\<close> is \<open>inspect._empty\<close>, no default. The source also
  reads \<open>str\<close> of the parameter's annotation (line 81) and never uses the result.
\<close>

record parameter =
  pname :: string
  pkind :: kind
  pdefault :: "string option"

text \<open>
  A function object: \<open>__name__\<close>, \<open>__doc__\<close>, \<open>__annotations__\<close> (an ordered dictionary, the
  key \<open>return\<close> holding the return annotation), the parameters of \<open>signature(func)\<close> in
  declaration order, and what calling it with positional and keyword arguments gives.
\<close>

record 'r pyfunction =
  fname :: string
  fdoc :: "string option"
  annotations :: "(string \<times> annotation) list"
  parameters :: "parameter list"
  call :: "pyval list \<Rightarrow> (string \<times> pyval) list \<Rightarrow> 'r"

text \<open>
  What \<open>typecheck\<close> can be handed: a function (\<open>def\<close> or \<open>lambda\<close>), a built-in function, a
  class, an instance with a \<open>__call__\<close> method, or an object that cannot be called. The last
  two carry the text \<open>str\<close> gives for them. The text of a function also holds its
  address, left out here; \<open>typecheck\<close> prints the text of no function.
\<close>

datatype 'r pyobject =
    PyFunction "'r pyfunction"
  | BuiltinFunction string
  | ClassObject pyclass
  | CallableInstance string
  | PlainObject string



fun str_object :: "'r pyobject \<Rightarrow> string" where
  "str_object (PyFunction f) = ''<function '' @ fname f @ ''>''"
| "str_object (BuiltinFunction n) = ''<built-in function '' @ n @ ''>''"
| "str_object (ClassObject c) = str_class_obj c"
| "str_object (CallableInstance s) = s"
| "str_object (PlainObject s) = s"

subsection \<open>Errors\<close>

text \<open>
  Every \<open>raise\<close> of the source raises Python's \<open>TypeError\<close>; the constructor tells the raise
  site, under the name the specification gives it, and carries the message.
  \<open>IndexError\<close> is what the list access of line 141 raises out of range.
\<close>

datatype error =
    NotCallableError string
  | NoAnnotationsError string
  | UnknownKeywordArgumentError string
  | PositionalAnnotationMissingError string
  | TypeMismatchError string
  | IndexError string

subsection \<open>The documentation (lines 78 to 104)\<close>

definition get_clear_argument_signature :: "parameter \<Rightarrow> string" where
  "get_clear_argument_signature argument_signature =
     (let parameter_name = pname argument_signature;
          parameter_kind = pkind argument_signature;
          parameter_default =
            get_clear_type_name
              (case pdefault argument_signature of
                 None \<Rightarrow> ''<class '' @ squote @ ''inspect._empty'' @ squote @ ''>''
               | Some d \<Rightarrow> d);
          parameter_default =
            (if parameter_default = ''inspect._empty'' then ''?'' else parameter_default)
      in str_kind parameter_kind @ ''    '' @ parameter_name @ '' = '' @ parameter_default)"

definition function_param_signature :: "'r pyfunction \<Rightarrow> string" where
  "function_param_signature func =
     ''('' @ endl @ tab
       @ join ('', '' @ endl @ tab) (map get_clear_argument_signature (parameters func))
       @ endl @ ''  )''"

definition function_signature :: "'r pyfunction \<Rightarrow> string" where
  "function_signature func = ''def '' @ fname func @ function_param_signature func @ '': ...''"

definition function_positional_argument_list :: "'r pyfunction \<Rightarrow> string list" where
  "function_positional_argument_list func = map pname (parameters func)"

definition no_documentation :: string where
  "no_documentation =
     endl @ ''  *** There'' @ squote @ ''s no documentation for function ***'' @ endl"

definition doc_header :: "'r pyfunction \<Rightarrow> string" where
  "doc_header func =
     ''Documentation for function \"'' @ fname func @ ''\":'' @ endl
       @ (case fdoc func of None \<Rightarrow> no_documentation | Some d \<Rightarrow> d) @ endl
       @ ''Signature:'' @ endl @ ''  '' @ function_signature func @ endl @ endl
       @ ''Parameters & Returns:'' @ endl"

text \<open>The loop of lines 102 to 104 over \<open>enumerate(type_annotations.items())\<close>.\<close>

fun doc_annotations :: "nat \<Rightarrow> nat \<Rightarrow> (string \<times> annotation) list \<Rightarrow> string" where
  "doc_annotations count index [] = []"
| "doc_annotations count index ((param_name, param_type) # rest) =
     (let suffix = (if index + 1 < count then '','' @ endl else endl)
      in ''  '' @ param_name @ '': '' @ get_clear_type_name (str_annotation param_type) @ suffix
           @ doc_annotations count (index + 1) rest)"

definition synthesized_doc :: "'r pyfunction \<Rightarrow> string" where
  "synthesized_doc func =
     doc_header func @ doc_annotations (length (annotations func)) 0 (annotations func)"

subsection \<open>The checks of \<open>check_type\<close> (lines 107 to 166)\<close>

text \<open>The loop of lines 117 to 137 over \<open>kwargs.items()\<close>.\<close>

fun check_keywords :: "'r pyfunction \<Rightarrow> (string \<times> pyval) list \<Rightarrow> error + unit" where
  "check_keywords func [] = Inr ()"
| "check_keywords func ((real_param_name, param_value) # rest) =
     (case map_of (annotations func) real_param_name of
        None \<Rightarrow>
          Inl (UnknownKeywordArgumentError
            (''Function '' @ squote @ fname func @ squote
              @ '' got an unexpected keyword argument '' @ squote @ real_param_name @ squote
              @ '', perhaps it doesn'' @ squote @ ''t have type hint ?''))
      | Some required_type \<Rightarrow>
          (let actual_type = type_of param_value in
           if \<not> isinstance_type required_type then check_keywords func rest
           else if TypeObj actual_type \<noteq> required_type then
             Inl (TypeMismatchError
               (''Keyword argument '' @ squote @ real_param_name @ squote @ '' requires type ''
                 @ get_clear_type_name (str_annotation required_type) @ '', ''
                 @ ''but got '' @ get_clear_type_name (str_class_obj actual_type)))
           else check_keywords func rest))"

text \<open>Lines 140 and 141: the list access raises \<open>IndexError\<close> out of range.\<close>

definition get_positioanal_argument_name :: "'r pyfunction \<Rightarrow> nat \<Rightarrow> error + string" where
  "get_positioanal_argument_name func index =
     (if index < length (function_positional_argument_list func)
      then Inr (function_positional_argument_list func ! index)
      else Inl (IndexError ''list index out of range''))"

text \<open>The loop of lines 144 to 163 over \<open>enumerate(args)\<close>, from \<open>index\<close> on.\<close>

fun check_positionals :: "'r pyfunction \<Rightarrow> nat \<Rightarrow> pyval list \<Rightarrow> error + unit" where
  "check_positionals func index [] = Inr ()"
| "check_positionals func index (param_value # rest) =
     (case get_positioanal_argument_name func index of
        Inl e \<Rightarrow> Inl e
      | Inr param_name \<Rightarrow>
          (case map_of (annotations func) param_name of
             None \<Rightarrow>
               Inl (PositionalAnnotationMissingError
                 (''No type information for positional argument at '' @ str_nat index
                   @ '', possibly name '' @ squote @ param_name @ squote @ '', ''
                   @ ''consider add a type hint for it''))
           | Some required_type \<Rightarrow>
               (let actual_type = type_of param_value in
                if \<not> isinstance_type required_type then check_positionals func (index + 1) rest
                else if TypeObj actual_type \<noteq> required_type then
                  Inl (TypeMismatchError
                    (''Positional argument at pos '' @ str_nat index @ '', possibly name ''
                      @ squote @ param_name @ squote @ '', ''
                      @ ''requires type '' @ squote
                      @ get_clear_type_name (str_annotation required_type) @ squote @ '', ''
                      @ ''but got '' @ squote
                      @ get_clear_type_name (str_class_obj actual_type) @ squote))
                else check_positionals func (index + 1) rest)))"

definition check_type ::
  "'r pyfunction \<Rightarrow> pyval list \<Rightarrow> (string \<times> pyval) list \<Rightarrow> error + 'r" where
  "check_type func args kwargs =
     (if length (annotations func) = 0 then
        Inl (NoAnnotationsError
          (''Type hint required for function '' @ squote @ fname func @ squote))
      else
        (case check_keywords func kwargs of
           Inl e \<Rightarrow> Inl e
         | Inr _ \<Rightarrow>
             (case check_positionals func 0 args of
                Inl e \<Rightarrow> Inl e
              | Inr _ \<Rightarrow> Inr (call func args kwargs))))"

subsection \<open>The decorator (lines 51 to 167)\<close>

text \<open>
  \<open>typecheck\<close> raises for anything but a function. Otherwise it returns \<open>check_type\<close>, to
  which \<open>wraps\<close> has copied the name, the annotations and the rewritten \<open>__doc__\<close>; its
  signature is the one of the function it wraps.
\<close>

definition typecheck :: "'r pyobject \<Rightarrow> error + (error + 'r) pyfunction" where
  "typecheck obj =
     (case obj of
        PyFunction func \<Rightarrow>
          Inr \<lparr> fname = fname func,
                fdoc = Some (synthesized_doc func),
                annotations = annotations func,
                parameters = parameters func,
                call = check_type func \<rparr>
      | _ \<Rightarrow> Inl (NotCallableError (''Not a function: '' @ str_object obj)))"

subsection \<open>What the statements speak of\<close>

text \<open>
  An argument passes its check when the annotations hold an entry under its parameter's
  name and that entry either is not a class object or is the very class of the value. A
  positional argument takes its parameter's name from its index.
\<close>

definition keyword_passes :: "'r pyfunction \<Rightarrow> string \<Rightarrow> pyval \<Rightarrow> bool" where
  "keyword_passes func name v =
     (case map_of (annotations func) name of
        None \<Rightarrow> False
      | Some required_type \<Rightarrow>
          (if isinstance_type required_type then required_type = TypeObj (type_of v) else True))"

definition positional_passes :: "'r pyfunction \<Rightarrow> nat \<Rightarrow> pyval \<Rightarrow> bool" where
  "positional_passes func index v =
     (index < length (parameters func) \<and>
      keyword_passes func (pname (parameters func ! index)) v)"

text \<open>A parameter is annotated when \<open>__annotations__\<close> has its name as a key.\<close>

definition annotated_parameters :: "'r pyfunction \<Rightarrow> parameter list" where
  "annotated_parameters func =
     filter (\<lambda>p. map_of (annotations func) (pname p) \<noteq> None) (parameters func)"

text \<open>
  The names of classes are dotted identifiers: they neither begin nor end with a quote or
  with \<open>>\<close>.
\<close>

definition well_named :: "pyclass \<Rightarrow> bool" where
  "well_named c =
     (cname c \<noteq> [] \<and> hd (cname c) \<notin> set (squote @ ''>'') \<and> last (cname c) \<notin> set (squote @ ''>''))"

subsection \<open>Functions to run the checks on\<close>

text \<open>A body that hands back the arguments it was called with.\<close>

definition probe :: "pyval list \<Rightarrow> (string \<times> pyval) list \<Rightarrow> pyval list \<times> (string \<times> pyval) list" where
  "probe args kwargs = (args, kwargs)"

definition positional :: "string \<Rightarrow> parameter" where
  "positional name = \<lparr> pname = name, pkind = POSITIONAL_OR_KEYWORD, pdefault = None \<rparr>"

text \<open>\<open>def add(a: int, b: int) -> int\<close>\<close>

definition add_func :: "(pyval list \<times> (string \<times> pyval) list) pyfunction" where
  "add_func =
     \<lparr> fname = ''add'', fdoc = None,
       annotations =
         [(''a'', TypeObj int_class), (''b'', TypeObj int_class), (''return'', TypeObj int_class)],
       parameters = [positional ''a'', positional ''b''],
       call = probe \<rparr>"

text \<open>\<open>def answer() -> int\<close>\<close>

definition answer_func :: "(pyval list \<times> (string \<times> pyval) list) pyfunction" where
  "answer_func =
     \<lparr> fname = ''answer'', fdoc = None,
       annotations = [(''return'', TypeObj int_class)],
       parameters = [],
       call = probe \<rparr>"

text \<open>\<open>def plain(a, b)\<close>\<close>

definition plain_func :: "(pyval list \<times> (string \<times> pyval) list) pyfunction" where
  "plain_func =
     \<lparr> fname = ''plain'', fdoc = None,
       annotations = [],
       parameters = [positional ''a'', positional ''b''],
       call = probe \<rparr>"

text \<open>\<open>def partly(a: int, b)\<close>\<close>

definition partly_func :: "(pyval list \<times> (string \<times> pyval) list) pyfunction" where
  "partly_func =
     \<lparr> fname = ''partly'', fdoc = None,
       annotations = [(''a'', TypeObj int_class)],
       parameters = [positional ''a'', positional ''b''],
       call = probe \<rparr>"

text \<open>\<open>def show(x: Any, y: int)\<close>, defined under CPython 3.\<open>minor\<close>\<close>

definition show_func :: "nat \<Rightarrow> (pyval list \<times> (string \<times> pyval) list) pyfunction" where
  "show_func minor =
     \<lparr> fname = ''show'', fdoc = None,
       annotations = [(''x'', typing_Any minor), (''y'', TypeObj int_class)],
       parameters = [positional ''x'', positional ''y''],
       call = probe \<rparr>"


text \<open>\<open>def greet(name: str = "alice")\<close>\<close>

definition greet_func :: "(pyval list \<times> (string \<times> pyval) list) pyfunction" where
  "greet_func =
     \<lparr> fname = ''greet'', fdoc = None,
       annotations = [(''name'', TypeObj str_class)],
       parameters =
         [\<lparr> pname = ''name'', pkind = POSITIONAL_OR_KEYWORD, pdefault = Some ''alice'' \<rparr>],
       call = probe \<rparr>"



text \<open>\<open>def noop()\<close>\<close>

definition noop_func :: "(pyval list \<times> (string \<times> pyval) list) pyfunction" where
  "noop_func =
     \<lparr> fname = ''noop'', fdoc = None, annotations = [], parameters = [], call = probe \<rparr>"

text \<open>Every class among the annotations, and the class of every value, is well named.\<close>

definition well_named_annotations :: "'r pyfunction \<Rightarrow> bool" where
  "well_named_annotations func =
     list_all (\<lambda>(k, a). case a of TypeObj c \<Rightarrow> well_named c | _ \<Rightarrow> True) (annotations func)"

definition well_named_values :: "pyval list \<Rightarrow> bool" where
  "well_named_values vs = list_all (\<lambda>v. well_named (type_of v)) vs"

section \<open>Properties\<close>

subsection \<open>The two loops\<close>

lemma check_keywords_append:
  "check_keywords func (xs @ ys) =
     (case check_keywords func xs of Inl e \<Rightarrow> Inl e | Inr _ \<Rightarrow> check_keywords func ys)"
  by (induction xs) (auto split: option.splits simp: Let_def)

lemma check_positionals_append:
  "check_positionals func i (xs @ ys) =
     (case check_positionals func i xs of
        Inl e \<Rightarrow> Inl e
      | Inr _ \<Rightarrow> check_positionals func (i + length xs) ys)"
  by (induction xs arbitrary: i) (auto split: option.splits sum.splits simp: Let_def)

lemma check_keywords_Inr_iff:
  "(check_keywords func kwargs = Inr ()) = list_all (\<lambda>(k, v). keyword_passes func k v) kwargs"
  by (induction kwargs)
     (auto simp: keyword_passes_def Let_def split: option.splits if_splits)

lemma check_positionals_Inr_iff:
  "(check_positionals func i args = Inr ()) =
     (\<forall>j < length args. positional_passes func (i + j) (args ! j))"
proof (induction args arbitrary: i)
  case Nil
  then show ?case by simp
next
  case (Cons v args)
  have step: "(check_positionals func i (v # args) = Inr ()) =
        (positional_passes func i v \<and> check_positionals func (Suc i) args = Inr ())"
    by (auto simp: positional_passes_def keyword_passes_def Let_def
          get_positioanal_argument_name_def function_positional_argument_list_def
          split: option.splits if_splits)
  show ?case
    unfolding step Cons.IH
    by (auto simp: less_Suc_eq_0_disj)
qed

lemma check_keywords_not_NoAnnotations:
  "check_keywords func kwargs \<noteq> Inl (NoAnnotationsError msg)"
  by (induction kwargs) (auto split: option.splits if_splits simp: Let_def)

lemma check_positionals_not_NoAnnotations:
  "check_positionals func i args \<noteq> Inl (NoAnnotationsError msg)"
  by (induction args arbitrary: i)
     (auto split: option.splits sum.splits if_splits
        simp: Let_def get_positioanal_argument_name_def)

lemma guard_iff:
  "(\<exists>msg. check_type func args kwargs = Inl (NoAnnotationsError msg)) = (annotations func = [])"
  by (auto simp: check_type_def check_keywords_not_NoAnnotations
        check_positionals_not_NoAnnotations split: sum.splits)

lemma annotated_nonempty:
  "annotated_parameters func \<noteq> [] \<Longrightarrow> annotations func \<noteq> []"
  by (auto simp: annotated_parameters_def filter_empty_conv)

subsection \<open>C3: the guard against a function without annotations\<close>

text \<open>
  C3, as the specification states it: a function with zero annotated parameters fails
  with \<open>NoAnnotationsError\<close> on every call, and a function with an annotated parameter
  never does. The guard of line 109 counts the entries of \<open>__annotations__\<close>, and the
  return annotation is one of them: \<open>def answer() -> int\<close> has no annotated parameter,
  and calling it with no argument reaches the function.
\<close>

theorem zero_annotated_parameters_counterexample:
  "annotated_parameters answer_func = []
   \<and> check_type answer_func [] [] = Inr ([], [])"
  by (simp add: answer_func_def annotated_parameters_def check_type_def probe_def)

text \<open>
  C3, amended: when \<open>__annotations__\<close> (the annotations of the parameters and of the
  return value) is empty, every call fails with \<open>NoAnnotationsError\<close>, whatever arguments
  it supplies; when it has an entry, and so whenever a parameter is annotated, no call
  fails with \<open>NoAnnotationsError\<close>.
\<close>

theorem no_annotations_guard:
  "(annotations func = [] \<longrightarrow>
      check_type func args kwargs =
        Inl (NoAnnotationsError (''Type hint required for function '' @ squote @ fname func @ squote)))
   \<and> (annotations func \<noteq> [] \<longrightarrow>
        (\<forall>msg. check_type func args kwargs \<noteq> Inl (NoAnnotationsError msg)))
   \<and> (annotated_parameters func \<noteq> [] \<longrightarrow>
        (\<forall>msg. check_type func args kwargs \<noteq> Inl (NoAnnotationsError msg)))"
  using guard_iff [of func args kwargs] annotated_nonempty [of func]
  by (auto simp: check_type_def)

theorem no_annotations_guard_witness:
  "check_type plain_func [IntV 1] [(''b'', IntV 2)] =
      Inl (NoAnnotationsError (''Type hint required for function 'plain'' @ squote))
   \<and> check_type plain_func [] [] =
      Inl (NoAnnotationsError (''Type hint required for function 'plain'' @ squote))
   \<and> annotated_parameters add_func = [positional ''a'', positional ''b'']
   \<and> check_type add_func [IntV 1, IntV 2] [] = Inr ([IntV 1, IntV 2], [])"
  using no_annotations_guard [of plain_func "[IntV 1]" "[(''b'', IntV 2)]"]
    no_annotations_guard [of plain_func "[]" "[]"]
    no_annotations_guard [of add_func "[IntV 1, IntV 2]" "[]"]
  by (simp add: plain_func_def add_func_def annotated_parameters_def positional_def
      squote_def check_type_def get_positioanal_argument_name_def
      function_positional_argument_list_def probe_def)

subsection \<open>When a call fails and when it reaches the function\<close>

lemma check_type_Inr_iff:
  "(check_type func args kwargs = Inr r) =
     (annotations func \<noteq> [] \<and> check_keywords func kwargs = Inr ()
      \<and> check_positionals func 0 args = Inr () \<and> r = call func args kwargs)"
  by (auto simp: check_type_def split: sum.splits)

lemma check_type_fails_iff:
  "(\<exists>e. check_type func args kwargs = Inl e) =
     (annotations func = [] \<or> check_keywords func kwargs \<noteq> Inr ()
      \<or> check_positionals func 0 args \<noteq> Inr ())"
  by (auto simp: check_type_def split: sum.splits)

lemma check_keywords_mismatch_head:
  "map_of (annotations func) name = Some (TypeObj declared) \<Longrightarrow> type_of v \<noteq> declared \<Longrightarrow>
     \<exists>msg. check_keywords func ((name, v) # post) = Inl (TypeMismatchError msg)"
  by simp

lemma check_keywords_match_head:
  "map_of (annotations func) name = Some (TypeObj declared) \<Longrightarrow> type_of v = declared \<Longrightarrow>
     check_keywords func ((name, v) # post) = check_keywords func post"
  by simp

lemma check_positionals_mismatch_head:
  "i < length (parameters func) \<Longrightarrow>
   map_of (annotations func) (pname (parameters func ! i)) = Some (TypeObj declared) \<Longrightarrow>
   type_of v \<noteq> declared \<Longrightarrow>
     \<exists>msg. check_positionals func i (v # rest) = Inl (TypeMismatchError msg)"
  by (simp add: get_positioanal_argument_name_def function_positional_argument_list_def)

lemma check_positionals_match_head:
  "i < length (parameters func) \<Longrightarrow>
   map_of (annotations func) (pname (parameters func ! i)) = Some (TypeObj declared) \<Longrightarrow>
   type_of v = declared \<Longrightarrow>
     check_positionals func i (v # rest) = check_positionals func (Suc i) rest"
  by (simp add: get_positioanal_argument_name_def function_positional_argument_list_def)

lemma keyword_mismatch_fails:
  assumes "map_of (annotations func) name = Some (TypeObj declared)"
    and "type_of v \<noteq> declared" and "(name, v) \<in> set kwargs"
  shows "\<exists>e. check_type func args kwargs = Inl e"
proof -
  have "\<not> keyword_passes func name v"
    using assms by (auto simp: keyword_passes_def)
  then have "\<not> list_all (\<lambda>(k, v). keyword_passes func k v) kwargs"
    using assms(3) by (auto simp: list_all_iff)
  then show ?thesis
    by (simp add: check_type_fails_iff check_keywords_Inr_iff)
qed

lemma positional_mismatch_fails:
  assumes "index < length args" and "index < length (parameters func)"
    and "map_of (annotations func) (pname (parameters func ! index)) = Some (TypeObj declared)"
    and "type_of (args ! index) \<noteq> declared"
  shows "\<exists>e. check_type func args kwargs = Inl e"
proof -
  have "\<not> positional_passes func index (args ! index)"
    using assms by (auto simp: positional_passes_def keyword_passes_def)
  then have "check_positionals func 0 args \<noteq> Inr ()"
    using assms(1) by (auto simp: check_positionals_Inr_iff)
  then show ?thesis
    by (simp add: check_type_fails_iff)
qed

lemma first_keyword_mismatch:
  assumes "map_of (annotations func) name = Some (TypeObj declared)"
    and "type_of v \<noteq> declared" and "check_keywords func pre = Inr ()"
  shows "\<exists>msg. check_type func args (pre @ (name, v) # post) = Inl (TypeMismatchError msg)"
proof -
  from assms(1) have ne: "annotations func \<noteq> []" by auto
  obtain msg where "check_keywords func ((name, v) # post) = Inl (TypeMismatchError msg)"
    using check_keywords_mismatch_head [OF assms(1,2)] by blast
  then have "check_keywords func (pre @ (name, v) # post) = Inl (TypeMismatchError msg)"
    using assms(3) by (simp add: check_keywords_append)
  then show ?thesis using ne by (simp add: check_type_def)
qed

lemma first_positional_mismatch:
  assumes "length before < length (parameters func)"
    and "map_of (annotations func) (pname (parameters func ! length before)) = Some (TypeObj declared)"
    and "type_of v \<noteq> declared"
    and "check_keywords func kwargs = Inr ()" and "check_positionals func 0 before = Inr ()"
  shows "\<exists>msg. check_type func (before @ v # after) kwargs = Inl (TypeMismatchError msg)"
proof -
  from assms(2) have ne: "annotations func \<noteq> []" by auto
  obtain msg where
    "check_positionals func (length before) (v # after) = Inl (TypeMismatchError msg)"
    using check_positionals_mismatch_head [OF assms(1,2,3)] by blast
  then have "check_positionals func 0 (before @ v # after) = Inl (TypeMismatchError msg)"
    using assms(5) by (simp add: check_positionals_append)
  then show ?thesis using ne assms(4) by (simp add: check_type_def)
qed

lemma typecheck_call:
  "typecheck (PyFunction func) = Inr w \<Longrightarrow> call w = check_type func"
  by (auto simp: typecheck_def)

subsection \<open>C1: the runtime type must be the declared class itself\<close>

text \<open>
  C1, as the specification states it: whenever a supplied argument's runtime type is not
  the declared class, the call fails with \<open>TypeMismatchError\<close>. The loops stop at the
  first argument that fails: in \<open>add(c=5, a="x")\<close> the keyword \<open>c\<close> is checked first and
  the call fails with \<open>UnknownKeywordArgumentError\<close>, although \<open>a\<close> is declared \<open>int\<close> and
  is given a \<open>str\<close>.
\<close>

theorem mismatch_after_unknown_keyword_counterexample:
  "map_of (annotations add_func) ''a'' = Some (TypeObj int_class)
   \<and> type_of (StrV ''x'') \<noteq> int_class
   \<and> check_type add_func [] [(''c'', IntV 5), (''a'', StrV ''x'')] =
       Inl (UnknownKeywordArgumentError
         ''Function 'add' got an unexpected keyword argument 'c', perhaps it doesn't have type hint ?'')"
  by (simp add: add_func_def check_type_def squote_def str_class_def int_class_def)

text \<open>
  C1, amended: for a parameter declared with a class, a keyword or positional argument
  whose runtime type is not that very class makes the call fail, and the error is
  \<open>TypeMismatchError\<close> when no argument checked before it (the keywords in the order
  supplied, then the positionals by index) has failed; so an instance of a strict subclass
  is rejected. An argument whose runtime type is the declared class passes: the loop goes
  on to the arguments after it.
\<close>

theorem exact_type_equality:
  assumes "map_of (annotations func) name = Some (TypeObj declared)"
  shows
    "(type_of v \<noteq> declared \<and> (name, v) \<in> set kwargs \<longrightarrow>
        (\<exists>e. check_type func args kwargs = Inl e))
     \<and> (type_of v \<noteq> declared \<and> check_keywords func pre = Inr () \<longrightarrow>
        (\<exists>msg. check_type func args (pre @ (name, v) # post) = Inl (TypeMismatchError msg)))
     \<and> (type_of v = declared \<longrightarrow>
        check_keywords func (pre @ (name, v) # post) =
          (case check_keywords func pre of Inl e \<Rightarrow> Inl e | Inr _ \<Rightarrow> check_keywords func post))
     \<and> (length before < length (parameters func)
          \<and> pname (parameters func ! length before) = name \<longrightarrow>
        (type_of v \<noteq> declared \<longrightarrow> (\<exists>e. check_type func (before @ v # after) kwargs = Inl e))
        \<and> (type_of v \<noteq> declared \<and> check_keywords func kwargs = Inr ()
              \<and> check_positionals func 0 before = Inr () \<longrightarrow>
            (\<exists>msg. check_type func (before @ v # after) kwargs = Inl (TypeMismatchError msg)))
        \<and> (type_of v = declared \<longrightarrow>
            check_positionals func 0 (before @ v # after) =
              (case check_positionals func 0 before of
                 Inl e \<Rightarrow> Inl e
               | Inr _ \<Rightarrow> check_positionals func (Suc (length before)) after)))"
proof (intro conjI impI)
  assume "type_of v \<noteq> declared \<and> (name, v) \<in> set kwargs"
  then show "\<exists>e. check_type func args kwargs = Inl e"
    using keyword_mismatch_fails [OF assms] by blast
next
  assume "type_of v \<noteq> declared \<and> check_keywords func pre = Inr ()"
  then show "\<exists>msg. check_type func args (pre @ (name, v) # post) = Inl (TypeMismatchError msg)"
    using first_keyword_mismatch [OF assms] by blast
next
  assume "type_of v = declared"
  then show "check_keywords func (pre @ (name, v) # post) =
      (case check_keywords func pre of Inl e \<Rightarrow> Inl e | Inr _ \<Rightarrow> check_keywords func post)"
    using check_keywords_match_head [OF assms, of v post]
    by (simp add: check_keywords_append del: check_keywords.simps split: sum.splits)
next
  assume p: "length before < length (parameters func)
     \<and> pname (parameters func ! length before) = name" and ne: "type_of v \<noteq> declared"
  have "length before < length (before @ v # after)" by simp
  moreover have "type_of ((before @ v # after) ! length before) \<noteq> declared"
    using ne by simp
  ultimately show "\<exists>e. check_type func (before @ v # after) kwargs = Inl e"
    using positional_mismatch_fails [of "length before" "before @ v # after" func declared kwargs]
      p assms by blast
next
  assume p: "length before < length (parameters func)
     \<and> pname (parameters func ! length before) = name"
    and "type_of v \<noteq> declared \<and> check_keywords func kwargs = Inr ()
              \<and> check_positionals func 0 before = Inr ()"
  then show "\<exists>msg. check_type func (before @ v # after) kwargs = Inl (TypeMismatchError msg)"
    using first_positional_mismatch [of before func declared v kwargs after] assms by blast
next
  assume p: "length before < length (parameters func)
     \<and> pname (parameters func ! length before) = name" and "type_of v = declared"
  then show "check_positionals func 0 (before @ v # after) =
      (case check_positionals func 0 before of
         Inl e \<Rightarrow> Inl e
       | Inr _ \<Rightarrow> check_positionals func (Suc (length before)) after)"
    using check_positionals_match_head [of "length before" func declared v after] assms
    by (simp add: check_positionals_append del: check_positionals.simps split: sum.splits)
qed

theorem exact_type_equality_witness:
  "map_of (annotations add_func) ''a'' = Some (TypeObj int_class)
   \<and> issubclass (type_of (BoolV True)) int_class \<and> type_of (BoolV True) \<noteq> int_class
   \<and> (\<exists>msg. check_type add_func [] [(''a'', BoolV True)] = Inl (TypeMismatchError msg))
   \<and> (\<exists>msg. check_type add_func [BoolV True, IntV 2] [] = Inl (TypeMismatchError msg))
   \<and> check_keywords add_func [(''a'', IntV 1), (''b'', IntV 2)] = check_keywords add_func [(''b'', IntV 2)]"
proof -
  have h: "map_of (annotations add_func) ''a'' = Some (TypeObj int_class)"
    by (simp add: add_func_def)
  have sub: "issubclass (type_of (BoolV True)) int_class \<and> type_of (BoolV True) \<noteq> int_class"
    by (simp add: bool_class_def int_class_def object_class_def)
  have p: "length ([]::pyval list) < length (parameters add_func)
      \<and> pname (parameters add_func ! length ([]::pyval list)) = ''a''"
    by (simp add: add_func_def positional_def)
  have k: "check_keywords add_func [] = Inr ()" "check_positionals add_func 0 [] = Inr ()"
    by simp_all
  note t1 = exact_type_equality [OF h, where v = "BoolV True" and pre = "[]" and post = "[]"
      and args = "[]" and before = "[]" and after = "[IntV 2]" and kwargs = "[]"]
  note t2 = exact_type_equality [OF h, where v = "IntV 1" and pre = "[]" and post = "[(''b'', IntV 2)]"
      and args = "[]" and before = "[]" and after = "[IntV 2]" and kwargs = "[]"]
  from t1 sub p k have a: "\<exists>msg. check_type add_func [] [(''a'', BoolV True)] = Inl (TypeMismatchError msg)"
    by (metis append_Nil)
  from t1 sub p k have b: "\<exists>msg. check_type add_func [BoolV True, IntV 2] [] = Inl (TypeMismatchError msg)"
    by (metis append_Nil)
  from t2 k have c: "check_keywords add_func [(''a'', IntV 1), (''b'', IntV 2)] = check_keywords add_func [(''b'', IntV 2)]"
    by (simp del: check_keywords.simps)
  from h sub a b c show ?thesis by blast
qed

subsection \<open>Text inside a message\<close>

lemma sublist_mid: "sublist x (a @ x @ b)"
  by simp

lemma sublist_mid2: "sublist (x @ y @ z) (a @ x @ y @ z @ b)"
  using sublist_appendI [of "x @ y @ z" a b] by simp

subsection \<open>C5: a keyword that has no annotation\<close>

lemma check_keywords_unknown_head:
  "map_of (annotations func) name = None \<Longrightarrow>
     check_keywords func ((name, v) # post) =
       Inl (UnknownKeywordArgumentError
         (''Function '' @ squote @ fname func @ squote
            @ '' got an unexpected keyword argument '' @ squote @ name @ squote
            @ '', perhaps it doesn'' @ squote @ ''t have type hint ?''))"
  by simp

text \<open>
  C5, as the specification states it: a call that supplies a keyword outside the declared
  parameters fails with \<open>UnknownKeywordArgumentError\<close>. The loop stops at the first keyword
  that fails: in \<open>add(a="x", c=5)\<close> the keyword \<open>a\<close> is checked first and the call fails
  with \<open>TypeMismatchError\<close>.
\<close>

theorem unknown_keyword_after_mismatch_counterexample:
  "map_of (annotations add_func) ''c'' = None
   \<and> check_type add_func [] [(''a'', StrV ''x''), (''c'', IntV 5)] =
       Inl (TypeMismatchError ''Keyword argument 'a' requires type int, but got str'')"
  by (simp add: add_func_def check_type_def squote_def str_class_def int_class_def
      object_class_def str_class_obj_def any_class_def get_clear_type_name_def strip_def)

text \<open>
  C5, amended: a call that supplies a keyword whose name is not a key of
  \<open>__annotations__\<close> fails; when \<open>__annotations__\<close> is not empty and every keyword supplied
  before it passes its check, the error is \<open>UnknownKeywordArgumentError\<close>, and its message
  names, each in quotes, the function and the keyword.
\<close>

theorem unknown_keyword:
  assumes "map_of (annotations func) name = None"
  shows
    "((name, v) \<in> set kwargs \<longrightarrow> (\<exists>e. check_type func args kwargs = Inl e))
     \<and> (annotations func \<noteq> [] \<and> check_keywords func pre = Inr () \<longrightarrow>
          (\<exists>msg. check_type func args (pre @ (name, v) # post) =
                   Inl (UnknownKeywordArgumentError msg)
             \<and> sublist (squote @ fname func @ squote) msg
             \<and> sublist (squote @ name @ squote) msg))"
proof (intro conjI impI)
  assume "(name, v) \<in> set kwargs"
  moreover have "\<not> keyword_passes func name v"
    using assms by (simp add: keyword_passes_def)
  ultimately have "\<not> list_all (\<lambda>(k, v). keyword_passes func k v) kwargs"
    by (auto simp: list_all_iff)
  then show "\<exists>e. check_type func args kwargs = Inl e"
    by (simp add: check_type_fails_iff check_keywords_Inr_iff)
next
  assume a: "annotations func \<noteq> [] \<and> check_keywords func pre = Inr ()"
  let ?msg = "''Function '' @ squote @ fname func @ squote
            @ '' got an unexpected keyword argument '' @ squote @ name @ squote
            @ '', perhaps it doesn'' @ squote @ ''t have type hint ?''"
  have "check_keywords func (pre @ (name, v) # post) = Inl (UnknownKeywordArgumentError ?msg)"
    using a check_keywords_unknown_head [OF assms, of v post]
    by (simp add: check_keywords_append del: check_keywords.simps)
  then have "check_type func args (pre @ (name, v) # post) = Inl (UnknownKeywordArgumentError ?msg)"
    using a by (simp add: check_type_def del: check_keywords.simps)
  moreover have "sublist (squote @ fname func @ squote) ?msg"
    by (rule sublist_mid2)
  moreover have "sublist (squote @ name @ squote) ?msg"
    using sublist_mid2 [of squote name squote
        "''Function '' @ squote @ fname func @ squote @ '' got an unexpected keyword argument ''"
        "'', perhaps it doesn'' @ squote @ ''t have type hint ?''"]
    by simp
  ultimately show "\<exists>msg. check_type func args (pre @ (name, v) # post) =
                   Inl (UnknownKeywordArgumentError msg)
             \<and> sublist (squote @ fname func @ squote) msg
             \<and> sublist (squote @ name @ squote) msg"
    by blast
qed

theorem unknown_keyword_witness:
  "map_of (annotations add_func) ''c'' = None
   \<and> (\<exists>msg. check_type add_func [IntV 1] [(''b'', IntV 2), (''c'', IntV 5)] =
               Inl (UnknownKeywordArgumentError msg)
         \<and> sublist (squote @ fname add_func @ squote) msg
         \<and> sublist (squote @ ''c'' @ squote) msg)"
proof -
  have h: "map_of (annotations add_func) ''c'' = None"
    by (simp add: add_func_def)
  have p: "annotations add_func \<noteq> [] \<and> check_keywords add_func [(''b'', IntV 2)] = Inr ()"
    by (simp add: add_func_def)
  from unknown_keyword [OF h, where pre = "[(''b'', IntV 2)]" and v = "IntV 5" and post = "[]"
      and args = "[IntV 1]" and kwargs = "[]"] p h
  show ?thesis by simp
qed

subsection \<open>C6: a positional argument that has no annotation\<close>

lemma check_positionals_missing_head:
  "i < length (parameters func) \<Longrightarrow>
   map_of (annotations func) (pname (parameters func ! i)) = None \<Longrightarrow>
     check_positionals func i (v # rest) =
       Inl (PositionalAnnotationMissingError
         (''No type information for positional argument at '' @ str_nat i
            @ '', possibly name '' @ squote @ pname (parameters func ! i) @ squote @ '', ''
            @ ''consider add a type hint for it''))"
  by (simp add: get_positioanal_argument_name_def function_positional_argument_list_def
        del: str_nat.simps)

text \<open>
  C6, as the specification states it: a positional argument at an index with no annotated
  parameter, an index beyond the last parameter included, makes the call fail with
  \<open>PositionalAnnotationMissingError\<close>. Beyond the last parameter the list access of line
  141 raises \<open>IndexError\<close> before any annotation is looked up: \<open>add(1, 2, 3)\<close>. And the
  loop stops at the first argument that fails: in \<open>partly("x", 2)\<close> the argument at index 0
  fails with \<open>TypeMismatchError\<close>, although the parameter \<open>b\<close> at index 1 has no annotation.
\<close>

theorem positional_beyond_parameters_counterexample:
  "check_type add_func [IntV 1, IntV 2, IntV 3] [] = Inl (IndexError ''list index out of range'')
   \<and> map_of (annotations partly_func) (pname (parameters partly_func ! 1)) = None
   \<and> check_type partly_func [StrV ''x'', IntV 2] [] =
       Inl (TypeMismatchError
         (''Positional argument at pos 0, possibly name 'a', requires type 'int', but got 'str''
            @ squote))"
  by (simp add: add_func_def partly_func_def positional_def check_type_def squote_def
      str_class_def int_class_def object_class_def str_class_obj_def any_class_def get_clear_type_name_def
      strip_def get_positioanal_argument_name_def function_positional_argument_list_def
      digit_char_def)

text \<open>
  C6, amended: a call that supplies a positional argument at an index where the signature
  has a parameter and \<open>__annotations__\<close> has no entry under that parameter's name fails;
  when \<open>__annotations__\<close> is not empty, every keyword passes and every positional argument
  before it passes, the error is \<open>PositionalAnnotationMissingError\<close>, and its message names
  the index and, in quotes, the parameter.
\<close>

theorem positional_without_annotation:
  assumes "length before < length (parameters func)"
    and "map_of (annotations func) (pname (parameters func ! length before)) = None"
  shows
    "(\<exists>e. check_type func (before @ v # after) kwargs = Inl e)
     \<and> (annotations func \<noteq> [] \<and> check_keywords func kwargs = Inr ()
          \<and> check_positionals func 0 before = Inr () \<longrightarrow>
          (\<exists>msg. check_type func (before @ v # after) kwargs =
                   Inl (PositionalAnnotationMissingError msg)
             \<and> sublist (''at '' @ str_nat (length before) @ '','') msg
             \<and> sublist (squote @ pname (parameters func ! length before) @ squote) msg))"
proof (intro conjI impI)
  have "\<not> positional_passes func (length before) ((before @ v # after) ! length before)"
    using assms by (simp add: positional_passes_def keyword_passes_def)
  then have "check_positionals func 0 (before @ v # after) \<noteq> Inr ()"
    unfolding check_positionals_Inr_iff
    by (metis add_0 length_append length_Cons less_add_Suc1 add_Suc_right)
  then show "\<exists>e. check_type func (before @ v # after) kwargs = Inl e"
    by (simp add: check_type_fails_iff)
next
  assume a: "annotations func \<noteq> [] \<and> check_keywords func kwargs = Inr ()
          \<and> check_positionals func 0 before = Inr ()"
  let ?n = "pname (parameters func ! length before)"
  let ?msg = "''No type information for positional argument at '' @ str_nat (length before)
            @ '', possibly name '' @ squote @ ?n @ squote @ '', ''
            @ ''consider add a type hint for it''"
  have "check_positionals func 0 (before @ v # after) = Inl (PositionalAnnotationMissingError ?msg)"
    using a check_positionals_missing_head [OF assms, of v after]
    by (simp add: check_positionals_append del: check_positionals.simps str_nat.simps)
  then have "check_type func (before @ v # after) kwargs = Inl (PositionalAnnotationMissingError ?msg)"
    using a by (simp add: check_type_def del: check_positionals.simps str_nat.simps)
  moreover have "sublist (''at '' @ str_nat (length before) @ '','') ?msg"
    using sublist_mid2 [of "''at ''" "str_nat (length before)" "'',''"
        "''No type information for positional argument ''"
        "'' possibly name '' @ squote @ ?n @ squote @ '', '' @ ''consider add a type hint for it''"]
    by (simp del: str_nat.simps)
  moreover have "sublist (squote @ ?n @ squote) ?msg"
    using sublist_mid2 [of squote ?n squote
        "''No type information for positional argument at '' @ str_nat (length before) @ '', possibly name ''"
        "'', '' @ ''consider add a type hint for it''"]
    by (simp del: str_nat.simps)
  ultimately show "\<exists>msg. check_type func (before @ v # after) kwargs =
                   Inl (PositionalAnnotationMissingError msg)
             \<and> sublist (''at '' @ str_nat (length before) @ '','') msg
             \<and> sublist (squote @ pname (parameters func ! length before) @ squote) msg"
    by blast
qed

theorem positional_without_annotation_witness:
  "length [IntV 1] < length (parameters partly_func)
   \<and> map_of (annotations partly_func) (pname (parameters partly_func ! length [IntV 1])) = None
   \<and> (\<exists>msg. check_type partly_func [IntV 1, IntV 2] [] =
               Inl (PositionalAnnotationMissingError msg)
         \<and> sublist ''at 1,'' msg
         \<and> sublist (squote @ ''b'' @ squote) msg)"
proof -
  have h1: "length [IntV 1] < length (parameters partly_func)"
    by (simp add: partly_func_def)
  have h2: "map_of (annotations partly_func) (pname (parameters partly_func ! length [IntV 1])) = None"
    by (simp add: partly_func_def positional_def)
  have n: "pname (parameters partly_func ! length [IntV 1]) = ''b''"
    by (simp add: partly_func_def positional_def)
  have p: "annotations partly_func \<noteq> [] \<and> check_keywords partly_func [] = Inr ()
      \<and> check_positionals partly_func 0 [IntV 1] = Inr ()"
    by (simp add: partly_func_def positional_def get_positioanal_argument_name_def
        function_positional_argument_list_def)
  from positional_without_annotation [OF h1 h2, where v = "IntV 2" and after = "[]"
      and kwargs = "[]"] p h1 h2 n
  show ?thesis by (simp add: digit_char_def)
qed

subsection \<open>C2: a call that passes is handed on as it is\<close>

text \<open>
  C2, as the specification states it: when every supplied argument passes its check, the
  function is called. The guard of line 109 comes before the loops and looks at no
  argument: \<open>noop()\<close> supplies no argument at all, and it fails, \<open>noop\<close> having no
  annotation.
\<close>

theorem no_argument_no_annotation_counterexample:
  "list_all (\<lambda>(k, v). keyword_passes noop_func k v) []
   \<and> check_type noop_func [] [] =
       Inl (NoAnnotationsError (''Type hint required for function 'noop'' @ squote))"
  by (simp add: noop_func_def check_type_def squote_def)

text \<open>
  C2, amended: when \<open>__annotations__\<close> is not empty and every supplied keyword and
  positional argument passes its check, the wrapped function calls the function with the
  very positional and keyword arguments it was given and returns its result as it is.
\<close>

theorem delegates_unmodified:
  assumes "annotations func \<noteq> []"
    and "list_all (\<lambda>(k, v). keyword_passes func k v) kwargs"
    and "\<forall>i < length args. positional_passes func i (args ! i)"
  shows "check_type func args kwargs = Inr (call func args kwargs)
     \<and> (\<exists>w. typecheck (PyFunction func) = Inr w
            \<and> call w args kwargs = Inr (call func args kwargs))"
proof -
  have "check_type func args kwargs = Inr (call func args kwargs)"
    using assms by (simp add: check_type_Inr_iff check_keywords_Inr_iff check_positionals_Inr_iff)
  then show ?thesis
    by (simp add: typecheck_def)
qed

theorem delegates_unmodified_witness:
  "annotations add_func \<noteq> []
   \<and> list_all (\<lambda>(k, v). keyword_passes add_func k v) [(''b'', IntV 2)]
   \<and> positional_passes add_func 0 (IntV 1)
   \<and> check_type add_func [IntV 1] [(''b'', IntV 2)] = Inr ([IntV 1], [(''b'', IntV 2)])"
proof -
  have h1: "annotations add_func \<noteq> []"
    by (simp add: add_func_def)
  have h2: "list_all (\<lambda>(k, v). keyword_passes add_func k v) [(''b'', IntV 2)]"
    by (simp add: add_func_def keyword_passes_def)
  have h3: "positional_passes add_func 0 (IntV 1)"
    by (simp add: add_func_def keyword_passes_def positional_passes_def positional_def)
  then have h3': "\<forall>i < length [IntV 1]. positional_passes add_func i ([IntV 1] ! i)"
    by simp
  have c: "call add_func [IntV 1] [(''b'', IntV 2)] = ([IntV 1], [(''b'', IntV 2)])"
    by (simp add: add_func_def probe_def)
  from delegates_unmodified [OF h1 h2 h3'] c h1 h2 h3 show ?thesis
    by simp
qed

subsection \<open>Annotations that are not classes\<close>








subsection \<open>C4: \<open>typing.Any\<close> is meant to switch the check off\<close>

text \<open>
  C4: an argument whose parameter is annotated \<open>typing.Any\<close> is accepted whatever its
  type. The docstring of \<open>typecheck\<close> promises it, and lines 130 and 156 skip an annotation
  only when it is not an instance of \<open>type\<close>. From CPython 3.11 on, a version line 45
  admits, \<open>typing.Any\<close> is a class: for \<open>def show(x: Any, y: int)\<close> the calls
  \<open>show(True, 2)\<close> and \<open>show(x="text", y=2)\<close> fail with \<open>TypeMismatchError\<close>. Under
  CPython 3.10 the same calls reach the function.
\<close>

theorem any_is_checked_from_3_11:
  "version_supported 11
   \<and> map_of (annotations (show_func 11)) ''x'' = Some (typing_Any 11)
   \<and> isinstance_type (typing_Any 11)
   \<and> check_type (show_func 11) [BoolV True, IntV 2] [] =
       Inl (TypeMismatchError
         (''Positional argument at pos 0, possibly name 'x', requires type 'typing.Any', but got 'bool''
            @ squote))
   \<and> check_type (show_func 11) [] [(''x'', StrV ''text''), (''y'', IntV 2)] =
       Inl (TypeMismatchError ''Keyword argument 'x' requires type typing.Any, but got str'')
   \<and> version_supported 10
   \<and> check_type (show_func 10) [BoolV True, IntV 2] [] = Inr ([BoolV True, IntV 2], [])
   \<and> check_type (show_func 10) [] [(''x'', StrV ''text''), (''y'', IntV 2)] =
       Inr ([], [(''x'', StrV ''text''), (''y'', IntV 2)])"
  by (simp add: version_supported_def show_func_def typing_Any_def positional_def
      check_type_def probe_def squote_def any_class_def bool_class_def str_class_def
      int_class_def object_class_def str_class_obj_def get_clear_type_name_def strip_def
      get_positioanal_argument_name_def function_positional_argument_list_def digit_char_def)

subsection \<open>C10: strings and unions are never checked\<close>




subsection \<open>C7: what \<open>typecheck\<close> itself raises\<close>




subsection \<open>C9: the rewritten documentation\<close>

text \<open>
  C9: the documentation gives, for each parameter, its kind, its name and its default.
  The default goes through \<open>get_clear_type_name\<close> (line 82), whose \<open>strip\<close> calls drop
  from both ends every character of \<open><class\<close>, the space, the quote and \<open>>\<close>: for
  \<open>def greet(name: str = "alice")\<close> the documentation shows the default \<open>ice\<close>.
\<close>

theorem default_alice_is_shown_as_ice:
  "get_clear_type_name ''alice'' = ''ice''
   \<and> get_clear_argument_signature
        \<lparr> pname = ''name'', pkind = POSITIONAL_OR_KEYWORD, pdefault = Some ''alice'' \<rparr> =
       ''POSITIONAL_OR_KEYWORD    name = ice''
   \<and> map_sum id fdoc (typecheck (PyFunction greet_func)) =
       Inr (Some (''Documentation for function \"greet\":\<newline>''
         @ ''\<newline>  *** There's no documentation for function ***\<newline>''
         @ ''\<newline>Signature:\<newline>''
         @ ''  def greet(\<newline>''
         @ ''    POSITIONAL_OR_KEYWORD    name = ice\<newline>''
         @ ''  ): ...\<newline>''
         @ ''\<newline>Parameters & Returns:\<newline>''
         @ ''  name: str\<newline>''))"
  by (simp add: typecheck_def greet_func_def synthesized_doc_def doc_header_def
      function_signature_def function_param_signature_def get_clear_argument_signature_def
      get_clear_type_name_def strip_def squote_def endl_def tab_def no_documentation_def
      str_class_def object_class_def str_class_obj_def any_class_def)

subsection \<open>The text of a class in a message\<close>

lemma strip_unchanged:
  assumes "s \<noteq> []" and "hd s \<notin> set chars" and "last s \<notin> set chars"
  shows "strip chars s = s"
proof -
  have a: "dropWhile (\<lambda>c. c \<in> set chars) s = s"
    using assms(1,2) by (cases s) simp_all
  have "rev s \<noteq> []" "hd (rev s) \<notin> set chars"
    using assms(1,3) by (simp_all add: hd_rev)
  then have b: "dropWhile (\<lambda>c. c \<in> set chars) (rev s) = rev s"
    by (cases "rev s") simp_all
  show ?thesis
    by (simp add: strip_def a b)
qed

lemma strip_class_prefix:
  "strip ''<class '' (''<class '' @ squote @ n @ squote @ ''>'') = squote @ n @ squote @ ''>''"
proof -
  have a: "dropWhile (\<lambda>c. c \<in> set ''<class '') (''<class '' @ squote @ n @ squote @ ''>'')
      = squote @ n @ squote @ ''>''"
    by (simp add: squote_def)
  have b: "dropWhile (\<lambda>c. c \<in> set ''<class '') (rev (squote @ n @ squote @ ''>''))
      = rev (squote @ n @ squote @ ''>'')"
    by (simp add: squote_def)
  show ?thesis
    unfolding strip_def a b by simp
qed

lemma strip_quote:
  assumes "n \<noteq> []" and "hd n \<notin> set (squote @ ''>'')"
  shows "strip squote (squote @ n @ squote @ ''>'') = n @ squote @ ''>''"
proof -
  obtain h t where n: "n = h # t" using assms(1) by (cases n) auto
  have h: "h \<noteq> CHR 0x27" using assms(2) by (simp add: n squote_def)
  have a: "dropWhile (\<lambda>c. c \<in> set squote) (squote @ n @ squote @ ''>'') = n @ squote @ ''>''"
    using h by (simp add: squote_def n)
  have b: "dropWhile (\<lambda>c. c \<in> set squote) (rev (n @ squote @ ''>'')) = rev (n @ squote @ ''>'')"
    by (simp add: squote_def)
  show ?thesis
    unfolding strip_def a b by simp
qed

lemma strip_quote_gt:
  assumes "n \<noteq> []" and "hd n \<notin> set (squote @ ''>'')" and "last n \<notin> set (squote @ ''>'')"
  shows "strip (squote @ ''>'') (n @ squote @ ''>'') = n"
proof -
  obtain h t where n: "n = h # t" using assms(1) by (cases n) auto
  have a: "dropWhile (\<lambda>c. c \<in> set (squote @ ''>'')) (n @ squote @ ''>'') = n @ squote @ ''>''"
    using assms(2) by (simp add: n)
  have "rev n \<noteq> []" "hd (rev n) \<notin> set (squote @ ''>'')"
    using assms(1,3) by (simp_all add: hd_rev)
  then have c: "dropWhile (\<lambda>c. c \<in> set (squote @ ''>'')) (rev n) = rev n"
    by (cases "rev n") simp_all
  have b: "dropWhile (\<lambda>c. c \<in> set (squote @ ''>'')) (rev (n @ squote @ ''>'')) = rev n"
    using c by (simp add: squote_def)
  show ?thesis
    unfolding strip_def a b by simp
qed

lemma clear_class_name:
  assumes "well_named c"
  shows "get_clear_type_name (str_class_obj c) = cname c"
proof (cases "c = any_class")
  case True
  then show ?thesis
    by (simp add: str_class_obj_def any_class_def get_clear_type_name_def strip_def squote_def)
next
  case False
  from assms have n: "cname c \<noteq> []" "hd (cname c) \<notin> set (squote @ ''>'')"
    "last (cname c) \<notin> set (squote @ ''>'')"
    by (simp_all add: well_named_def)
  have e: "str_class_obj c = ''<class '' @ squote @ cname c @ squote @ ''>''"
    using False by (simp add: str_class_obj_def)
  show ?thesis
    unfolding get_clear_type_name_def e strip_class_prefix
      strip_quote [OF n(1,2)] strip_quote_gt [OF n]
    by (rule refl)
qed

lemma well_named_declared:
  assumes "well_named_annotations func" and "map_of (annotations func) name = Some (TypeObj d)"
  shows "well_named d"
proof -
  from assms(2) have "(name, TypeObj d) \<in> set (annotations func)"
    by (rule map_of_SomeD)
  with assms(1) show ?thesis
    by (auto simp: well_named_annotations_def list_all_iff)
qed

lemma sublist_after: "sublist x (a @ x)"
  by simp

lemma keyword_mismatch_message:
  assumes "well_named d" and "well_named t"
    and msg_def: "msg = ''Keyword argument '' @ squote @ k @ squote @ '' requires type ''
                 @ get_clear_type_name (str_annotation (TypeObj d)) @ '', ''
                 @ ''but got '' @ get_clear_type_name (str_class_obj t)"
  shows "sublist (squote @ k @ squote) msg \<and> sublist (cname d) msg \<and> sublist (cname t) msg"
proof -
  have m: "msg = ''Keyword argument '' @ squote @ k @ squote @ '' requires type ''
                 @ cname d @ '', '' @ ''but got '' @ cname t"
    by (simp add: msg_def clear_class_name assms(1,2))
  have "sublist (squote @ k @ squote) msg"
    unfolding m
    using sublist_mid2 [of squote k squote "''Keyword argument ''"
        "'' requires type '' @ cname d @ '', '' @ ''but got '' @ cname t"]
    by simp
  moreover have "sublist (cname d) msg"
    unfolding m
    using sublist_appendI [of "cname d"
        "''Keyword argument '' @ squote @ k @ squote @ '' requires type ''"
        "'', '' @ ''but got '' @ cname t"]
    by simp
  moreover have "sublist (cname t) msg"
    unfolding m
    using sublist_after [of "cname t"
        "''Keyword argument '' @ squote @ k @ squote @ '' requires type '' @ cname d @ '', '' @ ''but got ''"]
    by simp
  ultimately show ?thesis by blast
qed

lemma positional_mismatch_message:
  assumes "well_named d" and "well_named t"
    and msg_def: "msg = ''Positional argument at pos '' @ str_nat i @ '', possibly name ''
                 @ squote @ n @ squote @ '', ''
                 @ ''requires type '' @ squote
                 @ get_clear_type_name (str_annotation (TypeObj d)) @ squote @ '', ''
                 @ ''but got '' @ squote
                 @ get_clear_type_name (str_class_obj t) @ squote"
  shows "sublist (''pos '' @ str_nat i @ '','') msg \<and> sublist (squote @ n @ squote) msg
     \<and> sublist (squote @ cname d @ squote) msg \<and> sublist (squote @ cname t @ squote) msg"
proof -
  have m: "msg = ''Positional argument at pos '' @ str_nat i @ '', possibly name ''
                 @ squote @ n @ squote @ '', '' @ ''requires type '' @ squote
                 @ cname d @ squote @ '', '' @ ''but got '' @ squote @ cname t @ squote"
    by (simp add: msg_def clear_class_name assms(1,2) del: str_nat.simps)
  have "sublist (''pos '' @ str_nat i @ '','') msg"
    unfolding m
    using sublist_mid2 [of "''pos ''" "str_nat i" "'',''" "''Positional argument at ''"
        "'' possibly name '' @ squote @ n @ squote @ '', '' @ ''requires type '' @ squote
           @ cname d @ squote @ '', '' @ ''but got '' @ squote @ cname t @ squote"]
    by (simp del: str_nat.simps)
  moreover have "sublist (squote @ n @ squote) msg"
    unfolding m
    using sublist_mid2 [of squote n squote
        "''Positional argument at pos '' @ str_nat i @ '', possibly name ''"
        "'', '' @ ''requires type '' @ squote
           @ cname d @ squote @ '', '' @ ''but got '' @ squote @ cname t @ squote"]
    by (simp del: str_nat.simps)
  moreover have "sublist (squote @ cname d @ squote) msg"
    unfolding m
    using sublist_mid2 [of squote "cname d" squote
        "''Positional argument at pos '' @ str_nat i @ '', possibly name ''
           @ squote @ n @ squote @ '', '' @ ''requires type ''"
        "'', '' @ ''but got '' @ squote @ cname t @ squote"]
    by (simp del: str_nat.simps)
  moreover have "sublist (squote @ cname t @ squote) msg"
    unfolding m
    using sublist_after [of "squote @ cname t @ squote"
        "''Positional argument at pos '' @ str_nat i @ '', possibly name ''
           @ squote @ n @ squote @ '', '' @ ''requires type '' @ squote
           @ cname d @ squote @ '', '' @ ''but got ''"]
    by (simp del: str_nat.simps)
  ultimately show ?thesis by blast
qed

subsection \<open>Which argument an error comes from\<close>

lemma check_keywords_error:
  assumes "check_keywords func kwargs = Inl e"
    and "well_named_annotations func" and "well_named_values (map snd kwargs)"
  shows "(\<exists>k v msg. (k, v) \<in> set kwargs \<and> map_of (annotations func) k = None
            \<and> e = UnknownKeywordArgumentError msg
            \<and> sublist (squote @ fname func @ squote) msg \<and> sublist (squote @ k @ squote) msg)
     \<or> (\<exists>k v d msg. (k, v) \<in> set kwargs \<and> map_of (annotations func) k = Some (TypeObj d)
            \<and> type_of v \<noteq> d \<and> e = TypeMismatchError msg
            \<and> sublist (squote @ k @ squote) msg
            \<and> sublist (cname d) msg \<and> sublist (cname (type_of v)) msg)"
  using assms(1,3)
proof (induction kwargs)
  case Nil
  then show ?case by simp
next
  case (Cons kv kwargs)
  obtain k v where kv: "kv = (k, v)" by (cases kv)
  from Cons.prems(2) have wv: "well_named (type_of v)"
    and wrest: "well_named_values (map snd kwargs)"
    by (simp_all add: kv well_named_values_def)
  show ?case
  proof (cases "map_of (annotations func) k")
    case None
    let ?msg = "''Function '' @ squote @ fname func @ squote
            @ '' got an unexpected keyword argument '' @ squote @ k @ squote
            @ '', perhaps it doesn'' @ squote @ ''t have type hint ?''"
    have e: "e = UnknownKeywordArgumentError ?msg"
      using Cons.prems(1) None by (simp add: kv)
    have "sublist (squote @ fname func @ squote) ?msg"
      by (rule sublist_mid2)
    moreover have "sublist (squote @ k @ squote) ?msg"
      using sublist_mid2 [of squote k squote
        "''Function '' @ squote @ fname func @ squote @ '' got an unexpected keyword argument ''"
        "'', perhaps it doesn'' @ squote @ ''t have type hint ?''"]
      by simp
    ultimately show ?thesis
      using None e by (auto simp: kv)
  next
    case (Some a)
    show ?thesis
    proof (cases "isinstance_type a \<and> a \<noteq> TypeObj (type_of v)")
      case False
      then have "check_keywords func (kv # kwargs) = check_keywords func kwargs"
        using Some by (auto simp: kv)
      with Cons.prems(1) have "check_keywords func kwargs = Inl e" by simp
      from Cons.IH [OF this wrest] show ?thesis
        by (elim disjE exE conjE) (auto simp: kv)
    next
      case True
      then obtain d where a: "a = TypeObj d" and ne: "type_of v \<noteq> d"
        by (cases a) auto
      let ?msg = "''Keyword argument '' @ squote @ k @ squote @ '' requires type ''
                 @ get_clear_type_name (str_annotation (TypeObj d)) @ '', ''
                 @ ''but got '' @ get_clear_type_name (str_class_obj (type_of v))"
      have e: "e = TypeMismatchError ?msg"
        using Cons.prems(1) Some a ne by (simp add: kv)
      have wd: "well_named d"
        using well_named_declared [OF assms(2)] Some a by simp
      from keyword_mismatch_message [OF wd wv refl, of k]
      have "sublist (squote @ k @ squote) ?msg \<and> sublist (cname d) ?msg
          \<and> sublist (cname (type_of v)) ?msg" .
      then show ?thesis
        using Some a ne e by (auto simp: kv)
    qed
  qed
qed

lemma check_positionals_error:
  assumes "check_positionals func i args = Inl e"
    and "well_named_annotations func" and "well_named_values args"
  shows "(\<exists>j msg. j < length args \<and> \<not> i + j < length (parameters func) \<and> e = IndexError msg)
     \<or> (\<exists>j msg. j < length args \<and> i + j < length (parameters func)
            \<and> map_of (annotations func) (pname (parameters func ! (i + j))) = None
            \<and> e = PositionalAnnotationMissingError msg
            \<and> sublist (''at '' @ str_nat (i + j) @ '','') msg
            \<and> sublist (squote @ pname (parameters func ! (i + j)) @ squote) msg)
     \<or> (\<exists>j d msg. j < length args \<and> i + j < length (parameters func)
            \<and> map_of (annotations func) (pname (parameters func ! (i + j))) = Some (TypeObj d)
            \<and> type_of (args ! j) \<noteq> d \<and> e = TypeMismatchError msg
            \<and> sublist (''pos '' @ str_nat (i + j) @ '','') msg
            \<and> sublist (squote @ pname (parameters func ! (i + j)) @ squote) msg
            \<and> sublist (cname d) msg \<and> sublist (cname (type_of (args ! j))) msg)"
  using assms(1,3)
proof (induction args arbitrary: i)
  case Nil
  then show ?case by simp
next
  case (Cons v args)
  from Cons.prems(2) have wv: "well_named (type_of v)" and wrest: "well_named_values args"
    by (simp_all add: well_named_values_def)
  let ?n = "pname (parameters func ! i)"
  show ?case
  proof (cases "i < length (parameters func)")
    case False
    then have "e = IndexError ''list index out of range''"
      using Cons.prems(1)
      by (simp add: get_positioanal_argument_name_def function_positional_argument_list_def)
    then show ?thesis
      using False by (intro disjI1 exI [of _ 0]) simp
  next
    case inrange: True
    then have name: "get_positioanal_argument_name func i = Inr ?n"
      by (simp add: get_positioanal_argument_name_def function_positional_argument_list_def)
    show ?thesis
    proof (cases "map_of (annotations func) ?n")
      case None
      let ?msg = "''No type information for positional argument at '' @ str_nat i
            @ '', possibly name '' @ squote @ ?n @ squote @ '', ''
            @ ''consider add a type hint for it''"
      have e: "e = PositionalAnnotationMissingError ?msg"
        using Cons.prems(1) None name by (simp del: str_nat.simps)
      have "sublist (''at '' @ str_nat i @ '','') ?msg"
        using sublist_mid2 [of "''at ''" "str_nat i" "'',''"
            "''No type information for positional argument ''"
            "'' possibly name '' @ squote @ ?n @ squote @ '', '' @ ''consider add a type hint for it''"]
        by (simp del: str_nat.simps)
      moreover have "sublist (squote @ ?n @ squote) ?msg"
        using sublist_mid2 [of squote ?n squote
            "''No type information for positional argument at '' @ str_nat i @ '', possibly name ''"
            "'', '' @ ''consider add a type hint for it''"]
        by (simp del: str_nat.simps)
      ultimately have "\<exists>j msg. j < length (v # args) \<and> i + j < length (parameters func)
            \<and> map_of (annotations func) (pname (parameters func ! (i + j))) = None
            \<and> e = PositionalAnnotationMissingError msg
            \<and> sublist (''at '' @ str_nat (i + j) @ '','') msg
            \<and> sublist (squote @ pname (parameters func ! (i + j)) @ squote) msg"
        using None e inrange by (intro exI [of _ 0] exI [of _ ?msg]) (simp del: str_nat.simps)
      then show ?thesis by blast
    next
      case (Some a)
      show ?thesis
      proof (cases "isinstance_type a \<and> a \<noteq> TypeObj (type_of v)")
        case False
        then have "check_positionals func i (v # args) = check_positionals func (Suc i) args"
          using Some name by (auto simp del: str_nat.simps)
        with Cons.prems(1) have "check_positionals func (Suc i) args = Inl e" by simp
        from Cons.IH [OF this wrest]
        consider
          (index) j msg where "j < length args" "\<not> Suc i + j < length (parameters func)"
            "e = IndexError msg"
        | (missing) j msg where "j < length args" "Suc i + j < length (parameters func)"
            "map_of (annotations func) (pname (parameters func ! (Suc i + j))) = None"
            "e = PositionalAnnotationMissingError msg"
            "sublist (''at '' @ str_nat (Suc i + j) @ '','') msg"
            "sublist (squote @ pname (parameters func ! (Suc i + j)) @ squote) msg"
        | (mismatch) j d msg where "j < length args" "Suc i + j < length (parameters func)"
            "map_of (annotations func) (pname (parameters func ! (Suc i + j))) = Some (TypeObj d)"
            "type_of (args ! j) \<noteq> d" "e = TypeMismatchError msg"
            "sublist (''pos '' @ str_nat (Suc i + j) @ '','') msg"
            "sublist (squote @ pname (parameters func ! (Suc i + j)) @ squote) msg"
            "sublist (cname d) msg" "sublist (cname (type_of (args ! j))) msg"
          by blast
        then show ?thesis
        proof cases
          case index
          then show ?thesis
            by (intro disjI1 exI [of _ "Suc j"] exI [of _ msg]) simp
        next
          case missing
          then show ?thesis
            by (intro disjI2 disjI1 exI [of _ "Suc j"] exI [of _ msg]) (simp del: str_nat.simps)
        next
          case mismatch
          then show ?thesis
            by (intro disjI2 exI [of _ "Suc j"] exI [of _ d] exI [of _ msg])
               (simp del: str_nat.simps)
        qed
      next
        case True
        then obtain d where a: "a = TypeObj d" and ne: "type_of v \<noteq> d"
          by (cases a) auto
        let ?msg = "''Positional argument at pos '' @ str_nat i @ '', possibly name ''
                 @ squote @ ?n @ squote @ '', ''
                 @ ''requires type '' @ squote
                 @ get_clear_type_name (str_annotation (TypeObj d)) @ squote @ '', ''
                 @ ''but got '' @ squote
                 @ get_clear_type_name (str_class_obj (type_of v)) @ squote"
        have e: "e = TypeMismatchError ?msg"
          using Cons.prems(1) Some a ne name by (simp del: str_nat.simps)
        have wd: "well_named d"
          using well_named_declared [OF assms(2)] Some a by simp
        from positional_mismatch_message [OF wd wv refl, of i ?n]
        have s: "sublist (''pos '' @ str_nat i @ '','') ?msg" "sublist (squote @ ?n @ squote) ?msg"
          "sublist (squote @ cname d @ squote) ?msg"
          "sublist (squote @ cname (type_of v) @ squote) ?msg"
          by blast+
        have "sublist (cname d) (squote @ cname d @ squote)"
          "sublist (cname (type_of v)) (squote @ cname (type_of v) @ squote)"
          by simp_all
        with s(3,4) have s': "sublist (cname d) ?msg" "sublist (cname (type_of v)) ?msg"
          using sublist_order.order_trans by blast+
        have "\<exists>j d msg. j < length (v # args) \<and> i + j < length (parameters func)
            \<and> map_of (annotations func) (pname (parameters func ! (i + j))) = Some (TypeObj d)
            \<and> type_of ((v # args) ! j) \<noteq> d \<and> e = TypeMismatchError msg
            \<and> sublist (''pos '' @ str_nat (i + j) @ '','') msg
            \<and> sublist (squote @ pname (parameters func ! (i + j)) @ squote) msg
            \<and> sublist (cname d) msg \<and> sublist (cname (type_of ((v # args) ! j))) msg"
          using Some a ne e inrange s(1,2) s'
          by (intro exI [of _ 0] exI [of _ d] exI [of _ ?msg]) (simp del: str_nat.simps)
        then show ?thesis by blast
      qed
    qed
  qed
qed

subsection \<open>C8: what the messages name\<close>

text \<open>
  C8, as the specification states it: every message of a wrapped call names the function.
  The messages of lines 134 to 136 and 160 to 162 (a type mismatch) and of lines 151 and 152
  (no annotation for a positional argument) are written without the function's name:
  \<open>add(a="x")\<close> fails with a message in which \<open>add\<close> does not occur.
\<close>

theorem mismatch_message_without_function_name_counterexample:
  "check_type add_func [] [(''a'', StrV ''x'')] =
      Inl (TypeMismatchError ''Keyword argument 'a' requires type int, but got str'')
   \<and> \<not> sublist (fname add_func) ''Keyword argument 'a' requires type int, but got str''"
  by (simp add: add_func_def check_type_def squote_def str_class_def int_class_def
      object_class_def str_class_obj_def any_class_def get_clear_type_name_def strip_def sublist_Cons_right)

text \<open>
  C8, amended: of the errors a wrapped call raises, the message of \<open>NoAnnotationsError\<close>
  names the function; the message of \<open>UnknownKeywordArgumentError\<close> names the function and
  the keyword that has no annotation; the message of \<open>PositionalAnnotationMissingError\<close>
  names the index and the parameter that has no annotation; the message of
  \<open>TypeMismatchError\<close> names the argument that has the wrong type (its keyword, or its
  position and its parameter), the declared class and the class of the value. An
  \<open>IndexError\<close> comes from a call with more positional arguments than parameters.
\<close>

theorem error_messages_name_what_failed:
  assumes "check_type func args kwargs = Inl e"
    and "well_named_annotations func"
    and "well_named_values (args @ map snd kwargs)"
  shows "case e of
      NoAnnotationsError msg \<Rightarrow> sublist (squote @ fname func @ squote) msg
    | UnknownKeywordArgumentError msg \<Rightarrow>
        sublist (squote @ fname func @ squote) msg
        \<and> (\<exists>k v. (k, v) \<in> set kwargs \<and> map_of (annotations func) k = None
              \<and> sublist (squote @ k @ squote) msg)
    | PositionalAnnotationMissingError msg \<Rightarrow>
        (\<exists>j. j < length args \<and> j < length (parameters func)
            \<and> map_of (annotations func) (pname (parameters func ! j)) = None
            \<and> sublist (''at '' @ str_nat j @ '','') msg
            \<and> sublist (squote @ pname (parameters func ! j) @ squote) msg)
    | TypeMismatchError msg \<Rightarrow>
        (\<exists>k v d. (k, v) \<in> set kwargs \<and> map_of (annotations func) k = Some (TypeObj d)
            \<and> type_of v \<noteq> d
            \<and> sublist (squote @ k @ squote) msg
            \<and> sublist (cname d) msg \<and> sublist (cname (type_of v)) msg)
        \<or> (\<exists>j d. j < length args \<and> j < length (parameters func)
            \<and> map_of (annotations func) (pname (parameters func ! j)) = Some (TypeObj d)
            \<and> type_of (args ! j) \<noteq> d
            \<and> sublist (''pos '' @ str_nat j @ '','') msg
            \<and> sublist (squote @ pname (parameters func ! j) @ squote) msg
            \<and> sublist (cname d) msg \<and> sublist (cname (type_of (args ! j))) msg)
    | IndexError msg \<Rightarrow> length (parameters func) < length args
    | NotCallableError msg \<Rightarrow> False"
proof -
  from assms(3) have wa: "well_named_values args" and wk: "well_named_values (map snd kwargs)"
    by (simp_all add: well_named_values_def)
  show ?thesis
  proof (cases "annotations func = []")
    case True
    then have "e = NoAnnotationsError
        (''Type hint required for function '' @ squote @ fname func @ squote)"
      using assms(1) by (simp add: check_type_def)
    moreover have "sublist (squote @ fname func @ squote)
        (''Type hint required for function '' @ squote @ fname func @ squote)"
      using sublist_after [of "squote @ fname func @ squote" "''Type hint required for function ''"]
      by simp
    ultimately show ?thesis by (simp only: error.case)
  next
    case nonempty: False
    show ?thesis
    proof (cases "check_keywords func kwargs")
      case (Inl e')
      then have "e' = e"
        using assms(1) nonempty by (simp add: check_type_def)
      with Inl have "check_keywords func kwargs = Inl e" by simp
      from check_keywords_error [OF this assms(2) wk]
      consider
        (unknown) k v msg where "(k, v) \<in> set kwargs" "map_of (annotations func) k = None"
          "e = UnknownKeywordArgumentError msg"
          "sublist (squote @ fname func @ squote) msg" "sublist (squote @ k @ squote) msg"
      | (mismatch) k v d msg where "(k, v) \<in> set kwargs"
          "map_of (annotations func) k = Some (TypeObj d)" "type_of v \<noteq> d"
          "e = TypeMismatchError msg" "sublist (squote @ k @ squote) msg"
          "sublist (cname d) msg" "sublist (cname (type_of v)) msg"
        by blast
      then show ?thesis
      proof cases
        case unknown
        have "\<exists>k v. (k, v) \<in> set kwargs \<and> map_of (annotations func) k = None
              \<and> sublist (squote @ k @ squote) msg"
          using unknown(1,2,5) by blast
        then show ?thesis
          unfolding unknown(3) error.case using unknown(4) by (rule conjI [rotated])
      next
        case mismatch
        have "\<exists>k v d. (k, v) \<in> set kwargs \<and> map_of (annotations func) k = Some (TypeObj d)
            \<and> type_of v \<noteq> d
            \<and> sublist (squote @ k @ squote) msg
            \<and> sublist (cname d) msg \<and> sublist (cname (type_of v)) msg"
          using mismatch(1,2,3,5,6,7) by blast
        then show ?thesis
          unfolding mismatch(4) error.case by (rule disjI1)
      qed
    next
      case (Inr u)
      then have "check_positionals func 0 args = Inl e"
        using assms(1) nonempty by (simp add: check_type_def split: sum.splits)
      from check_positionals_error [OF this assms(2) wa]
      consider
        (index) j msg where "j < length args" "\<not> 0 + j < length (parameters func)"
          "e = IndexError msg"
      | (missing) j msg where "j < length args" "0 + j < length (parameters func)"
          "map_of (annotations func) (pname (parameters func ! (0 + j))) = None"
          "e = PositionalAnnotationMissingError msg"
          "sublist (''at '' @ str_nat (0 + j) @ '','') msg"
          "sublist (squote @ pname (parameters func ! (0 + j)) @ squote) msg"
      | (mismatch) j d msg where "j < length args" "0 + j < length (parameters func)"
          "map_of (annotations func) (pname (parameters func ! (0 + j))) = Some (TypeObj d)"
          "type_of (args ! j) \<noteq> d" "e = TypeMismatchError msg"
          "sublist (''pos '' @ str_nat (0 + j) @ '','') msg"
          "sublist (squote @ pname (parameters func ! (0 + j)) @ squote) msg"
          "sublist (cname d) msg" "sublist (cname (type_of (args ! j))) msg"
        by blast
      then show ?thesis
      proof cases
        case index
        then have "length (parameters func) < length args" by simp
        then show ?thesis
          unfolding index(3) error.case .
      next
        case missing
        have "\<exists>j. j < length args \<and> j < length (parameters func)
            \<and> map_of (annotations func) (pname (parameters func ! j)) = None
            \<and> sublist (''at '' @ str_nat j @ '','') msg
            \<and> sublist (squote @ pname (parameters func ! j) @ squote) msg"
          using missing(1,2,3,5,6) unfolding add_0 by blast
        then show ?thesis
          unfolding missing(4) error.case .
      next
        case mismatch
        have "\<exists>j d. j < length args \<and> j < length (parameters func)
            \<and> map_of (annotations func) (pname (parameters func ! j)) = Some (TypeObj d)
            \<and> type_of (args ! j) \<noteq> d
            \<and> sublist (''pos '' @ str_nat j @ '','') msg
            \<and> sublist (squote @ pname (parameters func ! j) @ squote) msg
            \<and> sublist (cname d) msg \<and> sublist (cname (type_of (args ! j))) msg"
          using mismatch(1,2,3,4,6,7,8,9) unfolding add_0 by blast
        then show ?thesis
          unfolding mismatch(5) error.case by (rule disjI2)
      qed
    qed
  qed
qed

theorem error_messages_name_what_failed_witness:
  "check_type add_func [StrV ''1'', StrV ''2''] [] =
      Inl (TypeMismatchError
        (''Positional argument at pos 0, possibly name 'a', requires type 'int', but got 'str''
           @ squote))
   \<and> well_named_annotations add_func
   \<and> well_named_values ([StrV ''1'', StrV ''2''] @ map snd [])
   \<and> (\<exists>j d. j < length [StrV ''1'', StrV ''2''] \<and> j < length (parameters add_func)
         \<and> map_of (annotations add_func) (pname (parameters add_func ! j)) = Some (TypeObj d)
         \<and> type_of ([StrV ''1'', StrV ''2''] ! j) \<noteq> d
         \<and> sublist (''pos '' @ str_nat j @ '','')
              (''Positional argument at pos 0, possibly name 'a', requires type 'int', but got 'str''
                 @ squote)
         \<and> sublist (squote @ pname (parameters add_func ! j) @ squote)
              (''Positional argument at pos 0, possibly name 'a', requires type 'int', but got 'str''
                 @ squote)
         \<and> sublist (cname d)
              (''Positional argument at pos 0, possibly name 'a', requires type 'int', but got 'str''
                 @ squote)
         \<and> sublist (cname (type_of ([StrV ''1'', StrV ''2''] ! j)))
              (''Positional argument at pos 0, possibly name 'a', requires type 'int', but got 'str''
                 @ squote))"
proof -
  let ?msg = "''Positional argument at pos 0, possibly name 'a', requires type 'int', but got 'str''
           @ squote"
  have h1: "check_type add_func [StrV ''1'', StrV ''2''] [] = Inl (TypeMismatchError ?msg)"
    by (simp add: add_func_def positional_def check_type_def squote_def
        str_class_def int_class_def object_class_def str_class_obj_def any_class_def get_clear_type_name_def
        strip_def get_positioanal_argument_name_def function_positional_argument_list_def
        digit_char_def)
  have h2: "well_named_annotations add_func"
    by (simp add: well_named_annotations_def add_func_def well_named_def int_class_def
        squote_def)
  have h3: "well_named_values ([StrV ''1'', StrV ''2''] @ map snd [])"
    by (simp add: well_named_values_def well_named_def str_class_def squote_def)
  have h3': "well_named_values ([StrV ''1'', StrV ''2''] @ map snd ([]::(string \<times> pyval) list))"
    using h3 by simp
  from error_messages_name_what_failed [OF h1 h2 h3']
  have c: "\<exists>j d. j < length [StrV ''1'', StrV ''2''] \<and> j < length (parameters add_func)
         \<and> map_of (annotations add_func) (pname (parameters add_func ! j)) = Some (TypeObj d)
         \<and> type_of ([StrV ''1'', StrV ''2''] ! j) \<noteq> d
         \<and> sublist (''pos '' @ str_nat j @ '','') ?msg
         \<and> sublist (squote @ pname (parameters add_func ! j) @ squote) ?msg
         \<and> sublist (cname d) ?msg
         \<and> sublist (cname (type_of ([StrV ''1'', StrV ''2''] ! j))) ?msg"
    by (simp del: str_nat.simps)
  show ?thesis
    by (intro conjI) (rule h1, rule h2, rule h3, rule c)
qed

end
